theory Spec2Isabelle
  imports Main "HOL-Library.Word"
begin

unbundle bit_operations_syntax

section \<open>The CHIP-8 machine of chip8.go\<close>

text \<open>
  The state is the struct \<open>Chip8\<close>. Go's fixed-size arrays \<open>[n]T\<close> are total functions
  from the index; the bound \<open>n\<close> that Go checks at run time is written out at every index
  expression whose range is not fixed by a nibble mask, and a violation is the run-time
  panic \<open>IndexOutOfRange\<close>. \<open>byte\<close> and \<open>uint16\<close> are words, so \<open>+\<close> wraps as in Go; Go's
  \<open>int\<close> values stay far below 64 bits here and are HOL integers.
\<close>

type_synonym byte = "8 word"
type_synonym uint16 = "16 word"

record Chip8 =
  registers :: "nat \<Rightarrow> byte"
  program_counter :: uint16
  index_register :: uint16
  stack :: "nat \<Rightarrow> uint16"
  delay_timer :: byte
  sound_timer :: byte
  memory :: "nat \<Rightarrow> byte"
  display :: "nat \<Rightarrow> nat \<Rightarrow> int"
  keypad :: "nat \<Rightarrow> uint16"

datatype error = IndexOutOfRange

text \<open>What \<open>fmt.Print\<close> writes is returned as a list of the printed strings.\<close>

type_synonym printed = "string list"

subsection \<open>NewChip\<close>

definition fontset :: "byte list" where
  "fontset =
    [0xF0, 0x90, 0x90, 0x90, 0xF0,
     0x20, 0x60, 0x20, 0x20, 0x70,
     0xF0, 0x10, 0xF0, 0x80, 0xF0,
     0xF0, 0x10, 0xF0, 0x10, 0xF0,
     0x90, 0x90, 0xF0, 0x10, 0x10,
     0xF0, 0x80, 0xF0, 0x10, 0xF0,
     0xF0, 0x80, 0xF0, 0x90, 0xF0,
     0xF0, 0x10, 0x20, 0x40, 0x40,
     0xF0, 0x90, 0xF0, 0x90, 0xF0,
     0xF0, 0x90, 0xF0, 0x10, 0xF0,
     0xF0, 0x90, 0xF0, 0x90, 0x90,
     0xE0, 0x90, 0xE0, 0x90, 0xE0,
     0xF0, 0x80, 0x80, 0x80, 0xF0,
     0xE0, 0x90, 0x90, 0x90, 0xE0,
     0xF0, 0x80, 0xF0, 0x80, 0xF0,
     0xF0, 0x80, 0xF0, 0x80, 0x80]"

text \<open>The zero value of \<open>[32][64]int\<close>.\<close>

definition blank_display :: "nat \<Rightarrow> nat \<Rightarrow> int" where
  "blank_display = (\<lambda>y x. 0)"

text \<open>\<open>new(Chip8)\<close> zeroes every field; the loop \<open>for i := 0; i < 80; i++\<close> copies the fontset.\<close>

definition load_fontset :: "(nat \<Rightarrow> byte) \<Rightarrow> nat \<Rightarrow> byte" where
  "load_fontset mem = fold (\<lambda>i m. m(i := fontset ! i)) [0..<80] mem"

definition NewChip :: Chip8 where
  "NewChip =
    \<lparr>registers = (\<lambda>i. 0), program_counter = 0x200, index_register = 0,
     stack = (\<lambda>i. 0), delay_timer = 0, sound_timer = 0,
     memory = load_fontset (\<lambda>i. 0), display = blank_display, keypad = (\<lambda>i. 0)\<rparr>"

subsection \<open>LoadROM\<close>

text \<open>
  \<open>os.ReadFile(path)\<close> is the argument \<open>file\<close>: \<open>None\<close> when reading fails, the bytes of
  the file otherwise. The result carries what was printed, the returned boolean and the
  chip. The loop \<open>for _, byte := range data\<close> writes at \<open>mem_value\<close> and increments it.
\<close>

fun load_loop :: "byte list \<Rightarrow> uint16 \<Rightarrow> Chip8 \<Rightarrow> error + Chip8" where
  "load_loop [] mem_value chip = Inr chip"
| "load_loop (b # data) mem_value chip =
     (if \<not> unat mem_value < 4096 then Inl IndexOutOfRange
      else load_loop data (mem_value + 1)
             (chip\<lparr>memory := (memory chip)(unat mem_value := b)\<rparr>))"

definition could_not_read_message :: string where
  "could_not_read_message = ''Could not read file '' @ [CHR 0x0A]"

definition file_too_big_message :: string where
  "file_too_big_message = ''File size too big to fit into memory! '' @ [CHR 0x0A]"

definition LoadROM :: "Chip8 \<Rightarrow> byte list option \<Rightarrow> error + (printed \<times> bool \<times> Chip8)" where
  "LoadROM chip file =
    (case file of
       None \<Rightarrow> Inr ([could_not_read_message], False, chip)
     | Some data \<Rightarrow>
         (let mem_value = program_counter chip in
          if uint mem_value + int (length data) \<ge> 4096
          then Inr ([file_too_big_message], False, chip)
          else (case load_loop data mem_value chip of
                  Inl e \<Rightarrow> Inl e
                | Inr chip' \<Rightarrow> Inr ([], True, chip'))))"

subsection \<open>Cycle\<close>

definition GetNibbles :: "int \<Rightarrow> nat \<Rightarrow> int \<Rightarrow> int" where
  "GetNibbles val bits binary_and = drop_bit bits (val AND binary_and)"

text \<open>
  The fetch \<open>int(uint16(memory[pc])<<8 | uint16(memory[pc+1]))\<close>; \<open>pc+1\<close> is a \<open>uint16\<close>
  sum, and both reads are bounds-checked.
\<close>

definition fetch_opcode :: "Chip8 \<Rightarrow> error + int" where
  "fetch_opcode chip =
    (let pc = program_counter chip in
     if \<not> unat pc < 4096 then Inl IndexOutOfRange
     else if \<not> unat (pc + 1) < 4096 then Inl IndexOutOfRange
     else Inr (uint (push_bit 8 (ucast (memory chip (unat pc)) :: uint16)
                     OR ucast (memory chip (unat (pc + 1))))))"

text \<open>
  The inner loop of the draw case, \<open>for j := 7; j >= 0; j--\<close>. It returns the column \<open>x\<close>
  it stopped at together with the chip, because \<open>x\<close> is declared outside both loops and is
  not reset between rows.
\<close>

function draw_bits :: "int \<Rightarrow> byte \<Rightarrow> byte \<Rightarrow> byte \<Rightarrow> Chip8 \<Rightarrow> error + (byte \<times> Chip8)" where
  "draw_bits j sprite_byte x y chip =
    (if \<not> j \<ge> 0 then Inr (x, chip)
     else
       (let mask = (push_bit (nat j) 1 :: byte);
            bit = drop_bit (nat j) (sprite_byte AND mask)
        in if \<not> (unat y < 32 \<and> unat x < 64) then Inl IndexOutOfRange
           else
             (let (sprite_byte', chip') =
                (if bit = 1 \<and> display chip (unat y) (unat x) = 1
                 then (sprite_byte AND NOT mask,
                       chip\<lparr>registers := (registers chip)(15 := 1)\<rparr>)
                 else (sprite_byte,
                       chip\<lparr>display := (display chip)
                               (unat y := (display chip (unat y))(unat x := 1))\<rparr>))
              in if x > 62 then Inr (x, chip')
                 else draw_bits (j - 1) sprite_byte' (x + 1) y chip')))"
  by pat_completeness auto
termination
  by (relation "measure (\<lambda>(j, sprite_byte, x, y, chip). nat (j + 1))") auto

declare draw_bits.simps [simp del]

text \<open>The outer loop, \<open>for i := range n_bytes\<close>, with its \<open>break\<close> at the bottom edge.\<close>

function draw_rows :: "int \<Rightarrow> int \<Rightarrow> byte \<Rightarrow> byte \<Rightarrow> Chip8 \<Rightarrow> error + Chip8" where
  "draw_rows i n_bytes x y chip =
    (if \<not> i < n_bytes then Inr chip
     else
       (let addr = index_register chip + word_of_int i in
        if \<not> unat addr < 4096 then Inl IndexOutOfRange
        else
          (case draw_bits 7 (memory chip (unat addr)) x y chip of
             Inl e \<Rightarrow> Inl e
           | Inr (x', chip') \<Rightarrow>
               (let y' = y + 1 in
                if y' > 30 then Inr chip'
                else draw_rows (i + 1) n_bytes x' y' chip'))))"
  by pat_completeness auto
termination
  by (relation "measure (\<lambda>(i, n_bytes, x, y, chip). nat (n_bytes - i))") auto

declare draw_rows.simps [simp del]

definition invalid_opcode_message :: string where
  "invalid_opcode_message = ''Invalid Opcode'' @ [CHR 0x0A]"

definition Cycle :: "Chip8 \<Rightarrow> error + (printed \<times> Chip8)" where
  "Cycle chip =
    (case fetch_opcode chip of
       Inl e \<Rightarrow> Inl e
     | Inr opcode \<Rightarrow>
        (let opcode_nibble_1 = GetNibbles opcode 12 0xF000 in
         if opcode_nibble_1 = 0 then
           Inr ([], chip\<lparr>display := blank_display,
                         program_counter := program_counter chip + 2\<rparr>)
         else if opcode_nibble_1 = 1 then
           Inr ([], chip\<lparr>program_counter := word_of_int (GetNibbles opcode 0 0x0FFF)\<rparr>)
         else if opcode_nibble_1 = 6 then
           (let val = GetNibbles opcode 0 0x00FF;
                reg1 = GetNibbles opcode 8 0x0F00
            in Inr ([], chip\<lparr>registers := (registers chip)(nat reg1 := word_of_int val),
                             program_counter := program_counter chip + 2\<rparr>))
         else if opcode_nibble_1 = 7 then
           (let val = GetNibbles opcode 0 0x00FF;
                reg1 = GetNibbles opcode 8 0x0F00
            in Inr ([], chip\<lparr>registers := (registers chip)
                               (nat reg1 := registers chip (nat reg1) + word_of_int val),
                             program_counter := program_counter chip + 2\<rparr>))
         else if opcode_nibble_1 = 10 then
           (let val = GetNibbles opcode 0 0x0FFF
            in Inr ([], chip\<lparr>index_register := word_of_int val,
                             program_counter := program_counter chip + 2\<rparr>))
         else if opcode_nibble_1 = 13 then
           (let reg1 = GetNibbles opcode 8 0x0F00;
                reg2 = GetNibbles opcode 4 0x00F0;
                x = registers chip (nat reg1);
                y = registers chip (nat reg2);
                n_bytes = GetNibbles opcode 0 0x000F;
                x = x AND 63;
                y = y AND 31
            in (case draw_rows 0 n_bytes x y (chip\<lparr>registers := (registers chip)(15 := 0)\<rparr>) of
                  Inl e \<Rightarrow> Inl e
                | Inr chip' \<Rightarrow>
                    Inr ([], chip'\<lparr>program_counter := program_counter chip' + 2\<rparr>)))
         else Inr ([invalid_opcode_message], chip)))"

subsection \<open>main\<close>

text \<open>
  \<open>main\<close> creates the chip, loads the ROM without looking at the boolean it returns, and
  calls \<open>Cycle\<close> for ever. \<open>Cycles n\<close> is the first \<open>n\<close> iterations of that loop, stopping at
  the first panic; the printing of the display is left out.
\<close>

fun Cycles :: "nat \<Rightarrow> printed \<times> Chip8 \<Rightarrow> error + (printed \<times> Chip8)" where
  "Cycles 0 oc = Inr oc"
| "Cycles (Suc n) (out, chip) =
     (case Cycle chip of
        Inl e \<Rightarrow> Inl e
      | Inr (out', chip') \<Rightarrow> Cycles n (out @ out', chip'))"

definition main_run :: "byte list option \<Rightarrow> nat \<Rightarrow> error + (printed \<times> Chip8)" where
  "main_run file n =
    (case LoadROM NewChip file of
       Inl e \<Rightarrow> Inl e
     | Inr (out, ok, chip) \<Rightarrow> Cycles n (out, chip))"

subsection \<open>Reachable states\<close>

text \<open>
  The states the exported operations can produce: the new chip, and from any such state the
  result of a ROM load or of a cycle that did not panic.
\<close>

inductive reachable :: "Chip8 \<Rightarrow> bool" where
  init: "reachable NewChip"
| load: "reachable chip \<Longrightarrow> LoadROM chip file = Inr (out, ok, chip') \<Longrightarrow> reachable chip'"
| step: "reachable chip \<Longrightarrow> Cycle chip = Inr (out, chip') \<Longrightarrow> reachable chip'"

code_pred reachable .

subsection \<open>Programs and observations used below\<close>

text \<open>Clear; V0 = 5; V1 = 10; V0 += V1 (the last one, \<open>8014\<close>, is of class 8).\<close>

definition scenario_rom :: "byte list" where
  "scenario_rom = [0x00, 0xE0, 0x60, 0x05, 0x61, 0x0A, 0x80, 0x14]"

text \<open>I = 0x206; draw one row at (V0, V0) twice; the sprite byte \<open>0xFF\<close> lies at 0x206.\<close>

definition double_draw_rom :: "byte list" where
  "double_draw_rom = [0xA2, 0x06, 0xD0, 0x01, 0xD0, 0x01, 0xFF]"

text \<open>A jump to 0xFFE, the last instruction slot of the memory.\<close>

definition jump_to_end_rom :: "byte list" where
  "jump_to_end_rom = [0x1F, 0xFE]"

text \<open>A jump to address 0, into the fontset.\<close>

definition jump_to_zero_rom :: "byte list" where
  "jump_to_zero_rom = [0x10, 0x00]"

definition return_rom :: "byte list" where
  "return_rom = [0x00, 0xEE]"

definition class_8_rom :: "byte list" where
  "class_8_rom = [0x80, 0x14]"

text \<open>A ROM of 3584 bytes: with \<open>0x200 + 3584 = 4096\<close> it fills the memory exactly.\<close>

definition full_rom :: "byte list" where
  "full_rom = replicate 3584 0"

definition V0_VF_PC :: "printed \<times> Chip8 \<Rightarrow> byte \<times> byte \<times> uint16" where
  "V0_VF_PC oc = (registers (snd oc) 0, registers (snd oc) 15, program_counter (snd oc))"

text \<open>Columns 0 to 8 of row 0 of the display, and VF.\<close>

definition row0_and_VF :: "printed \<times> Chip8 \<Rightarrow> int list \<times> byte" where
  "row0_and_VF oc =
     (map (display (snd oc) 0) [0, 1, 2, 3, 4, 5, 6, 7, 8], registers (snd oc) 15)"

text \<open>
  One cycle of the ROM that jumps to 0, then a second \<open>LoadROM\<close> of the one byte \<open>0xAB\<close>
  on the same chip.
\<close>

definition reload_after_jump :: "error + (printed \<times> bool \<times> Chip8)" where
  "reload_after_jump =
     (case main_run (Some jump_to_zero_rom) 1 of
        Inl e \<Rightarrow> Inl e
      | Inr (out, chip) \<Rightarrow> LoadROM chip (Some [0xAB]))"

definition ok_and_byte0 :: "printed \<times> bool \<times> Chip8 \<Rightarrow> bool \<times> byte" where
  "ok_and_byte0 r = (fst (snd r), memory (snd (snd r)) 0)"

text \<open>The new chip with the two bytes of one instruction stored at 0x200.\<close>

definition chip_with_instruction :: "byte \<Rightarrow> byte \<Rightarrow> Chip8" where
  "chip_with_instruction hb lb = NewChip\<lparr>memory := (memory NewChip)(512 := hb, 513 := lb)\<rparr>"

definition printed_and_PC :: "printed \<times> Chip8 \<Rightarrow> printed \<times> nat" where
  "printed_and_PC oc = (fst oc, unat (program_counter (snd oc)))"

text \<open>Register 10 holds 0xF0 and VF holds 7; the instruction at 0x200 is \<open>7A42\<close>.\<close>

definition add_wrap_chip :: Chip8 where
  "add_wrap_chip = (chip_with_instruction 0x7A 0x42)\<lparr>registers := (\<lambda>i. 0)(10 := 0xF0, 15 := 7)\<rparr>"

text \<open>The state two cycles after loading the jump to 0xFFE.\<close>

definition end_of_memory_chip :: Chip8 where
  "end_of_memory_chip =
     (chip_with_instruction 0x1F 0xFE)\<lparr>program_counter := 0x1000, display := blank_display\<rparr>"

section \<open>Decoding\<close>

lemma drop_push_same: "drop_bit n (push_bit n (a::int)) = a"
  by (simp only: drop_bit_push_bit diff_self_eq_0 drop_bit_0 push_bit_0_id id_apply)

lemma and_low_bits: "(v::int) AND (2 ^ n - 1) = v mod 2 ^ n"
proof -
  have "v AND (2 ^ n - 1) = v AND mask n"
    by (simp only: mask_eq_exp_minus_1)
  also have "\<dots> = take_bit n v"
    by (simp only: take_bit_eq_mask)
  also have "\<dots> = v mod 2 ^ n"
    by (rule take_bit_eq_mod)
  finally show ?thesis .
qed

lemma nibble_field:
  "drop_bit n ((v::int) AND push_bit n (2 ^ k - 1)) = (v div 2 ^ n) mod 2 ^ k"
proof -
  have "drop_bit n (v AND push_bit n (2 ^ k - 1))
          = drop_bit n v AND drop_bit n (push_bit n (2 ^ k - 1))"
    by (rule drop_bit_and)
  also have "\<dots> = drop_bit n v AND (2 ^ k - 1)"
    by (simp only: drop_push_same)
  also have "\<dots> = drop_bit n v mod 2 ^ k"
    by (rule and_low_bits)
  also have "\<dots> = (v div 2 ^ n) mod 2 ^ k"
    by (simp only: drop_bit_eq_div)
  finally show ?thesis .
qed

lemma GetNibbles_class: "GetNibbles v 12 0xF000 = (v div 4096) mod 16"
  using nibble_field [of 12 v 4] by (simp add: GetNibbles_def)

lemma GetNibbles_X: "GetNibbles v 8 0x0F00 = (v div 256) mod 16"
  using nibble_field [of 8 v 4] by (simp add: GetNibbles_def)

lemma GetNibbles_Y: "GetNibbles v 4 0x00F0 = (v div 16) mod 16"
  using nibble_field [of 4 v 4] by (simp add: GetNibbles_def)

lemma GetNibbles_N: "GetNibbles v 0 0x000F = v mod 16"
  using nibble_field [of 0 v 4] by (simp add: GetNibbles_def)

lemma GetNibbles_NN: "GetNibbles v 0 0x00FF = v mod 256"
  using nibble_field [of 0 v 8] by (simp add: GetNibbles_def)

lemma GetNibbles_NNN: "GetNibbles v 0 0x0FFF = v mod 4096"
  using nibble_field [of 0 v 12] by (simp add: GetNibbles_def)

lemmas GetNibbles_fields =
  GetNibbles_class GetNibbles_X GetNibbles_Y GetNibbles_N GetNibbles_NN GetNibbles_NNN

text \<open>The fields of the instruction word \<open>256 * h + l\<close> in terms of its two bytes.\<close>

lemma opcode_div256:
  fixes h l :: int
  assumes "0 \<le> l" "l < 256"
  shows "(256 * h + l) div 256 = h" and "(256 * h + l) mod 256 = l"
  using assms by simp_all

lemma opcode_class:
  fixes h l :: int
  assumes "0 \<le> h" "h < 256" "0 \<le> l" "l < 256"
  shows "(256 * h + l) div 4096 mod 16 = h div 16"
proof -
  have "(256 * h + l) div 4096 = (256 * h + l) div (256 * 16)" by simp
  also have "\<dots> = (256 * h + l) div 256 div 16"
    by (rule zdiv_zmult2_eq) simp
  also have "\<dots> = h div 16"
    using assms by (simp only: opcode_div256)
  finally have "(256 * h + l) div 4096 = h div 16" .
  moreover have "0 \<le> h div 16" "h div 16 < 16" using assms by simp_all
  ultimately show ?thesis by simp
qed

lemma opcode_X:
  fixes h l :: int
  assumes "0 \<le> l" "l < 256"
  shows "(256 * h + l) div 256 mod 16 = h mod 16"
  using assms by (simp only: opcode_div256)

lemma opcode_Y:
  fixes h l :: int
  assumes "0 \<le> l" "l < 256"
  shows "(256 * h + l) div 16 mod 16 = l div 16"
proof -
  have "(256 * h + l) div 16 = (l + 16 * h * 16) div 16" by (simp add: ac_simps)
  also have "\<dots> = l div 16 + 16 * h"
    by simp
  finally have "(256 * h + l) div 16 mod 16 = (l div 16 + 16 * h) mod 16" by simp
  also have "\<dots> = l div 16 mod 16" by simp
  also have "\<dots> = l div 16" using assms by simp
  finally show ?thesis .
qed

lemma opcode_N:
  fixes h l :: int
  shows "(256 * h + l) mod 16 = l mod 16"
proof -
  have "(256 * h + l) mod 16 = (l + 16 * (16 * h)) mod 16" by (simp add: ac_simps)
  also have "\<dots> = l mod 16" by (simp only: mod_mult_self2)
  finally show ?thesis .
qed

lemma opcode_NNN:
  fixes h l :: int
  assumes "0 \<le> l" "l < 256"
  shows "(256 * h + l) mod 4096 = 256 * (h mod 16) + l"
proof -
  have "(256 * h + l) mod 4096 = (256 * h + l) mod (256 * 16)" by simp
  also have "\<dots> = 256 * ((256 * h + l) div 256 mod 16) + (256 * h + l) mod 256"
    by (rule zmod_zmult2_eq) simp
  also have "\<dots> = 256 * (h mod 16) + l"
    using assms by (simp only: opcode_div256)
  finally show ?thesis .
qed

text \<open>The two bytes of an instruction, high byte first, as the integer \<open>Cycle\<close> decodes.\<close>

lemma uint_cat_bytes:
  "uint (push_bit 8 (ucast (a::byte) :: uint16) OR ucast (b::byte)) = 256 * uint a + uint b"
proof -
  have ra: "0 \<le> uint a" "uint a < 256" and rb: "0 \<le> uint b" "uint b < 256"
    using uint_lt2p [of a] uint_lt2p [of b] by simp_all
  have a: "uint (push_bit 8 (ucast a :: uint16)) = push_bit 8 (uint a)"
  proof -
    have "uint (push_bit 8 (ucast a :: uint16)) = take_bit 16 (push_bit 8 (take_bit 16 (uint a)))"
      by (simp only: unsigned_push_bit_eq unsigned_ucast_eq) simp
    also have "\<dots> = push_bit 8 (uint a)"
      using ra by (simp add: take_bit_eq_mod push_bit_eq_mult)
    finally show ?thesis .
  qed
  have b: "uint (ucast b :: uint16) = take_bit 8 (uint b)"
    using rb by (simp add: unsigned_ucast_eq take_bit_eq_mod)
  have "uint (push_bit 8 (ucast a :: uint16) OR ucast b) = push_bit 8 (uint a) OR take_bit 8 (uint b)"
    by (simp only: uint_or a b)
  also have "\<dots> = concat_bit 8 (uint b) (uint a)"
    by (simp only: concat_bit_def or.commute)
  also have "\<dots> = take_bit 8 (uint b) + push_bit 8 (uint a)"
    by (rule concat_bit_eq)
  also have "\<dots> = 256 * uint a + uint b"
    using rb by (simp add: push_bit_eq_mult take_bit_eq_mod)
  finally show ?thesis .
qed

lemma unat_pc_succ:
  "unat (pc::uint16) < 4095 \<Longrightarrow> unat (pc + 1) = unat pc + 1"
  by (simp add: unat_word_ariths)

lemma unat_pc_plus2:
  "unat (pc::uint16) < 4095 \<Longrightarrow> unat (pc + 2) = unat pc + 2"
  by (simp add: unat_word_ariths)

lemma fetch_opcode_in_range:
  assumes "unat (program_counter chip) < 4095"
  shows "fetch_opcode chip =
           Inr (256 * uint (memory chip (unat (program_counter chip)))
                + uint (memory chip (unat (program_counter chip) + 1)))"
  using assms by (simp add: fetch_opcode_def Let_def unat_pc_succ uint_cat_bytes)

lemma fetch_opcode_out_of_range:
  assumes "\<not> unat (program_counter chip) < 4095"
  shows "fetch_opcode chip = Inl IndexOutOfRange"
proof (cases "unat (program_counter chip) < 4096")
  case True
  with assms have "unat (program_counter chip) = 4095" by simp
  then have "of_nat (unat (program_counter chip)) = (of_nat 4095 :: uint16)"
    by (rule arg_cong)
  then have "program_counter chip = 4095"
    by simp
  then show ?thesis by (simp add: fetch_opcode_def)
next
  case False
  then show ?thesis by (simp add: fetch_opcode_def)
qed

lemma load_fontset_eq:
  "load_fontset mem = (\<lambda>i. if i < 80 then fontset ! i else mem i)"
proof -
  have "fold (\<lambda>i m. m(i := f i)) [0..<n] m0 = (\<lambda>i. if i < n then f i else m0 i)"
    for f :: "nat \<Rightarrow> byte" and n m0
    by (induction n) (auto simp: fun_eq_iff)
  then show ?thesis by (simp add: load_fontset_def)
qed

section \<open>One cycle, by instruction class\<close>

lemma uint_byte_range: "0 \<le> uint (b::byte)" "uint (b::byte) < 256"
  using uint_lt2p [of b] by simp_all

lemma Cycle_fetch_fault:
  "\<not> unat (program_counter chip) < 4095 \<Longrightarrow> Cycle chip = Inl IndexOutOfRange"
  by (simp add: Cycle_def fetch_opcode_out_of_range)

lemma Cycle_decoded:
  assumes "unat (program_counter chip) < 4095"
  shows "Cycle chip =
    (let hb = memory chip (unat (program_counter chip));
         lb = memory chip (unat (program_counter chip) + 1);
         cls = uint hb div 16;
         X = nat (uint hb mod 16)
     in if cls = 0 then
          Inr ([], chip\<lparr>display := blank_display,
                        program_counter := program_counter chip + 2\<rparr>)
        else if cls = 1 then
          Inr ([], chip\<lparr>program_counter := word_of_int (256 * (uint hb mod 16) + uint lb)\<rparr>)
        else if cls = 6 then
          Inr ([], chip\<lparr>registers := (registers chip)(X := lb),
                        program_counter := program_counter chip + 2\<rparr>)
        else if cls = 7 then
          Inr ([], chip\<lparr>registers := (registers chip)(X := registers chip X + lb),
                        program_counter := program_counter chip + 2\<rparr>)
        else if cls = 10 then
          Inr ([], chip\<lparr>index_register := word_of_int (256 * (uint hb mod 16) + uint lb),
                        program_counter := program_counter chip + 2\<rparr>)
        else if cls = 13 then
          (case draw_rows 0 (uint lb mod 16) (registers chip X AND 63)
                  (registers chip (nat (uint lb div 16)) AND 31)
                  (chip\<lparr>registers := (registers chip)(15 := 0)\<rparr>) of
             Inl e \<Rightarrow> Inl e
           | Inr chip' \<Rightarrow> Inr ([], chip'\<lparr>program_counter := program_counter chip' + 2\<rparr>))
        else Inr ([invalid_opcode_message], chip))"
  using assms uint_byte_range
  by (simp add: Cycle_def fetch_opcode_in_range GetNibbles_fields Let_def
        opcode_class opcode_X opcode_Y opcode_N opcode_NNN opcode_div256)

text \<open>The draw loops write the display and the registers only.\<close>

lemma draw_bits_frame:
  "draw_bits j sprite_byte x y chip = Inr (x', chip') \<Longrightarrow>
     program_counter chip' = program_counter chip \<and>
     index_register chip' = index_register chip \<and>
     memory chip' = memory chip \<and>
     stack chip' = stack chip \<and>
     delay_timer chip' = delay_timer chip \<and>
     sound_timer chip' = sound_timer chip \<and>
     keypad chip' = keypad chip"
proof (induction j sprite_byte x y chip rule: draw_bits.induct)
  case (1 j sprite_byte x y chip)
  show ?case
  proof (cases "j \<ge> 0")
    case False
    with "1.prems" show ?thesis
      by (simp add: draw_bits.simps)
  next
    case True
    show ?thesis
      using "1.prems" "1.IH" True
      by (subst (asm) draw_bits.simps) (auto simp: Let_def split: if_splits prod.splits)
  qed
qed

lemma draw_rows_frame:
  "draw_rows i n_bytes x y chip = Inr chip' \<Longrightarrow>
     program_counter chip' = program_counter chip \<and>
     index_register chip' = index_register chip \<and>
     memory chip' = memory chip \<and>
     stack chip' = stack chip \<and>
     delay_timer chip' = delay_timer chip \<and>
     sound_timer chip' = sound_timer chip \<and>
     keypad chip' = keypad chip"
proof (induction i n_bytes x y chip rule: draw_rows.induct)
  case (1 i n_bytes x y chip)
  show ?case
  proof (cases "i < n_bytes")
    case False
    with "1.prems" show ?thesis
      by (simp add: draw_rows.simps)
  next
    case True
    show ?thesis
      using "1.prems" "1.IH" True
      by (subst (asm) draw_rows.simps)
         (auto simp: Let_def split: if_splits prod.splits sum.splits dest!: draw_bits_frame)
  qed
qed

section \<open>The program counter and the loader\<close>

lemma uint_word_of_int_u16:
  "0 \<le> v \<Longrightarrow> v < 65536 \<Longrightarrow> uint (word_of_int v :: uint16) = v"
  by (simp add: uint_word_of_int_eq take_bit_int_eq_self)

lemma jump_target_range:
  fixes hb lb :: byte
  shows "unat (word_of_int (256 * (uint hb mod 16) + uint lb) :: uint16) < 4096"
proof -
  have "0 \<le> uint hb mod 16" "uint hb mod 16 < 16" by simp_all
  moreover have "0 \<le> uint lb" "uint lb < 256" by (rule uint_byte_range)+
  ultimately have r: "0 \<le> 256 * (uint hb mod 16) + uint lb" "256 * (uint hb mod 16) + uint lb < 4096"
    by linarith+
  then have "uint (word_of_int (256 * (uint hb mod 16) + uint lb) :: uint16)
               = 256 * (uint hb mod 16) + uint lb"
    by (intro uint_word_of_int_u16) simp_all
  with r have "nat (uint (word_of_int (256 * (uint hb mod 16) + uint lb) :: uint16)) < 4096"
    by linarith
  then show ?thesis
    by (simp only: unat_eq_nat_uint)
qed

lemma Cycle_pc_bound:
  assumes "Cycle chip = Inr (out, chip')"
  shows "unat (program_counter chip') \<le> 4096"
proof (cases "unat (program_counter chip) < 4095")
  case False
  with assms show ?thesis by (simp add: Cycle_fetch_fault)
next
  case True
  have j: "unat (word_of_int (256 * (uint hb mod 16) + uint lb) :: uint16) \<le> 4096" for hb lb :: byte
    using jump_target_range [of hb lb] by simp
  from True have p: "unat (program_counter chip + 2) \<le> 4096" "unat (program_counter chip) \<le> 4096"
    by (simp_all add: unat_pc_plus2)
  from assms True show ?thesis
    using j p
    by (auto simp: Cycle_decoded Let_def split: if_splits sum.splits dest!: draw_rows_frame)
qed

lemma load_loop_frame:
  "load_loop data a chip = Inr chip' \<Longrightarrow>
     program_counter chip' = program_counter chip \<and>
     index_register chip' = index_register chip \<and>
     registers chip' = registers chip \<and>
     display chip' = display chip \<and>
     stack chip' = stack chip \<and>
     delay_timer chip' = delay_timer chip \<and>
     sound_timer chip' = sound_timer chip \<and>
     keypad chip' = keypad chip"
  by (induction data arbitrary: a chip) (auto split: if_splits)

lemma load_loop_no_panic:
  "unat a + length data \<le> 4096 \<Longrightarrow> \<exists>chip'. load_loop data a chip = Inr chip'"
proof (induction data arbitrary: a chip)
  case Nil
  then show ?case by simp
next
  case (Cons b data)
  then have a: "unat a < 4096" by simp
  then have "unat (a + 1) = unat a + 1"
    by (simp add: unat_word_ariths)
  with Cons.prems have "unat (a + 1) + length data \<le> 4096" by simp
  from Cons.IH [OF this] a show ?case by simp
qed

lemma LoadROM_no_panic: "\<exists>out ok chip'. LoadROM chip file = Inr (out, ok, chip')"
proof (cases "file")
  case None
  then have "LoadROM chip file = Inr ([could_not_read_message], False, chip)"
    by (simp add: LoadROM_def)
  then show ?thesis by blast
next
  case (Some data)
  show ?thesis
  proof (cases "uint (program_counter chip) + int (length data) \<ge> 4096")
    case True
    with Some have "LoadROM chip file = Inr ([file_too_big_message], False, chip)"
      by (simp add: LoadROM_def)
    then show ?thesis by blast
  next
    case False
    moreover have "uint (program_counter chip) = int (unat (program_counter chip))"
      by (rule uint_nat)
    ultimately have "unat (program_counter chip) + length data \<le> 4096"
      by linarith
    from load_loop_no_panic [OF this, of chip] obtain chip'
      where "load_loop data (program_counter chip) chip = Inr chip'" by blast
    with Some False have "LoadROM chip file = Inr ([], True, chip')"
      by (simp add: LoadROM_def)
    then show ?thesis by blast
  qed
qed

lemma LoadROM_pc:
  "LoadROM chip file = Inr (out, ok, chip') \<Longrightarrow> program_counter chip' = program_counter chip"
  by (auto simp: LoadROM_def Let_def split: option.splits if_splits sum.splits dest!: load_loop_frame)

section \<open>Cycles on given instructions and states\<close>

lemma Cycles_step:
  "0 < n \<Longrightarrow> Cycles n (out, chip) =
     (case Cycle chip of Inl e \<Rightarrow> Inl e
      | Inr (out', chip') \<Rightarrow> Cycles (n - 1) (out @ out', chip'))"
  by (cases n) (simp_all split: sum.split)

lemma NewChip_sel:
  "registers NewChip = (\<lambda>i. 0)" "program_counter NewChip = 0x200"
  "index_register NewChip = 0" "display NewChip = blank_display"
  "memory NewChip = (\<lambda>i. if i < 80 then fontset ! i else 0)"
  by (simp_all add: NewChip_def load_fontset_eq)

lemma Cycle_invalid:
  assumes "unat (program_counter chip) < 4095"
    and "uint (memory chip (unat (program_counter chip))) div 16 \<notin> {0, 1, 6, 7, 10, 13}"
  shows "Cycle chip = Inr ([invalid_opcode_message], chip)"
  using assms by (simp add: Cycle_decoded Let_def)

lemma high_nibble:
  fixes X :: nat and c :: int
  assumes "X < 16"
  shows "(16 * c + int X) div 16 = c" and "(16 * c + int X) mod 16 = int X"
  using assms by simp_all

lemma Cycle_set:
  assumes "unat (program_counter chip) < 4095"
    and "X < 16"
    and "uint (memory chip (unat (program_counter chip))) = 0x60 + int X"
    and "memory chip (unat (program_counter chip) + 1) = NN"
  shows "Cycle chip = Inr ([], chip\<lparr>registers := (registers chip)(X := NN),
                                    program_counter := program_counter chip + 2\<rparr>)"
  using assms high_nibble [of X 6] by (simp add: Cycle_decoded Let_def)

lemma Cycle_add:
  assumes "unat (program_counter chip) < 4095"
    and "X < 16"
    and "uint (memory chip (unat (program_counter chip))) = 0x70 + int X"
    and "memory chip (unat (program_counter chip) + 1) = NN"
  shows "Cycle chip = Inr ([], chip\<lparr>registers := (registers chip)(X := registers chip X + NN),
                                    program_counter := program_counter chip + 2\<rparr>)"
  using assms high_nibble [of X 7] by (simp add: Cycle_decoded Let_def)

lemma Cycle_class_0:
  assumes "unat (program_counter chip) < 4095"
    and "uint (memory chip (unat (program_counter chip))) div 16 = 0"
  shows "Cycle chip = Inr ([], chip\<lparr>display := blank_display,
                                    program_counter := program_counter chip + 2\<rparr>)"
  using assms by (simp add: Cycle_decoded Let_def)

lemma chip_with_instruction_sel:
  "program_counter (chip_with_instruction hb lb) = 0x200"
  "memory (chip_with_instruction hb lb) 512 = hb"
  "memory (chip_with_instruction hb lb) 513 = lb"
  "registers (chip_with_instruction hb lb) = (\<lambda>i. 0)"
  by (simp_all add: chip_with_instruction_def NewChip_sel)

lemma LoadROM_two_bytes:
  "LoadROM NewChip (Some [hb, lb]) = Inr ([], True, chip_with_instruction hb lb)"
  by (simp add: LoadROM_def NewChip_sel chip_with_instruction_def)

lemma class_8_chip_facts:
  "unat (program_counter (chip_with_instruction 0x80 0x14)) < 4095"
  "uint (memory (chip_with_instruction 0x80 0x14)
          (unat (program_counter (chip_with_instruction 0x80 0x14)))) div 16
     \<notin> {0, 1, 6, 7, 10, 13}"
  by (simp_all add: chip_with_instruction_sel)

lemma return_chip_facts:
  "unat (program_counter (chip_with_instruction 0x00 0xEE)) < 4095"
  "memory (chip_with_instruction 0x00 0xEE)
     (unat (program_counter (chip_with_instruction 0x00 0xEE))) = 0x00"
  "memory (chip_with_instruction 0x00 0xEE)
     (unat (program_counter (chip_with_instruction 0x00 0xEE)) + 1) = 0xEE"
  by (simp_all add: chip_with_instruction_sel)

lemma Cycle_jump_to_end:
  "Cycle (chip_with_instruction 0x1F 0xFE)
     = Inr ([], (chip_with_instruction 0x1F 0xFE)\<lparr>program_counter := 0xFFE\<rparr>)"
  by (simp add: Cycle_decoded chip_with_instruction_sel)

lemma Cycle_past_end:
  "Cycle ((chip_with_instruction 0x1F 0xFE)\<lparr>program_counter := 0xFFE\<rparr>)
     = Inr ([], end_of_memory_chip)"
  by (simp add: Cycle_decoded chip_with_instruction_def NewChip_sel end_of_memory_chip_def)

lemma reachable_end_of_memory_chip: "reachable end_of_memory_chip"
proof -
  have "reachable (chip_with_instruction 0x1F 0xFE)"
    using reachable.init LoadROM_two_bytes by (rule reachable.load)
  then have "reachable ((chip_with_instruction 0x1F 0xFE)\<lparr>program_counter := 0xFFE\<rparr>)"
    using Cycle_jump_to_end by (rule reachable.step)
  then show ?thesis
    using Cycle_past_end by (rule reachable.step)
qed

lemma pc_past_end_then_panic: "main_run (Some jump_to_end_rom) 3 = Inl IndexOutOfRange"
  by (simp add: main_run_def jump_to_end_rom_def LoadROM_two_bytes Cycles_step
        Cycle_jump_to_end Cycle_past_end Cycle_fetch_fault end_of_memory_chip_def)

subsection \<open>The loader, the display and the memory\<close>

lemma LoadROM_double_draw:
  "LoadROM NewChip (Some double_draw_rom) =
     Inr ([], True, NewChip\<lparr>memory := (memory NewChip)
       (512 := 0xA2, 513 := 0x06, 514 := 0xD0, 515 := 0x01, 516 := 0xD0, 517 := 0x01,
        518 := 0xFF)\<rparr>)"
  by (simp add: LoadROM_def double_draw_rom_def NewChip_sel)

text \<open>A load that returns \<open>false\<close> leaves the chip as it was.\<close>

lemma LoadROM_failed_unchanged:
  "LoadROM chip file = Inr (out, False, chip') \<Longrightarrow> chip' = chip"
  by (auto simp: LoadROM_def Let_def split: option.splits if_splits sum.splits)

text \<open>The load of a readable file succeeds exactly when \<open>pc + length\<close> is below 4096.\<close>

lemma LoadROM_ok_iff:
  assumes "LoadROM chip (Some data) = Inr (out, ok, chip')"
  shows "ok \<longleftrightarrow> unat (program_counter chip) + length data < 4096"
proof -
  have "uint (program_counter chip) = int (unat (program_counter chip))"
    by (rule uint_nat)
  then have "(uint (program_counter chip) + int (length data) \<ge> 4096)
               \<longleftrightarrow> \<not> unat (program_counter chip) + length data < 4096"
    by linarith
  with assms show ?thesis
    by (auto simp: LoadROM_def Let_def split: if_splits sum.splits)
qed

text \<open>No draw turns a lit pixel off.\<close>

lemma draw_bits_keeps_lit:
  "draw_bits j sprite_byte x y chip = Inr (x', chip') \<Longrightarrow> display chip r c = 1 \<Longrightarrow>
     display chip' r c = 1"
proof (induction j sprite_byte x y chip rule: draw_bits.induct)
  case (1 j sprite_byte x y chip)
  show ?case
  proof (cases "j \<ge> 0")
    case False
    with "1.prems" show ?thesis
      by (simp add: draw_bits.simps)
  next
    case True
    let ?mask = "push_bit (nat j) 1 :: byte"
    let ?bit = "drop_bit (nat j) (sprite_byte AND ?mask)"
    let ?pr = "if ?bit = 1 \<and> display chip (unat y) (unat x) = 1
               then (sprite_byte AND NOT ?mask, chip\<lparr>registers := (registers chip)(15 := 1)\<rparr>)
               else (sprite_byte,
                     chip\<lparr>display := (display chip)
                             (unat y := (display chip (unat y))(unat x := 1))\<rparr>)"
    obtain sbA chipA where p: "(sbA, chipA) = ?pr"
      by (metis surj_pair)
    have lit: "display chipA r c = 1"
      using p "1.prems"(2) by (auto split: if_splits)
    have unf: "draw_bits j sprite_byte x y chip =
                 (if \<not> (unat y < 32 \<and> unat x < 64) then Inl IndexOutOfRange
                  else if x > 62 then Inr (x, chipA)
                  else draw_bits (j - 1) sbA (x + 1) y chipA)"
      by (subst draw_bits.simps, unfold Let_def p [symmetric]) (simp add: True)
    show ?thesis
    proof (cases "unat y < 32 \<and> unat x < 64")
      case False
      with unf "1.prems"(1) show ?thesis by simp
    next
      case inside: True
      show ?thesis
      proof (cases "x > 62")
        case True
        with unf inside "1.prems"(1) lit show ?thesis by simp
      next
        case False
        with unf inside "1.prems"(1)
        have "draw_bits (j - 1) sbA (x + 1) y chipA = Inr (x', chip')" by simp
        with \<open>0 \<le> j\<close> inside False p lit show ?thesis
          by (intro "1.IH" [of ?mask ?bit ?pr sbA chipA]) simp_all
      qed
    qed
  qed
qed

lemma draw_rows_keeps_lit:
  "draw_rows i n_bytes x y chip = Inr chip' \<Longrightarrow> display chip r c = 1 \<Longrightarrow>
     display chip' r c = 1"
proof (induction i n_bytes x y chip rule: draw_rows.induct)
  case (1 i n_bytes x y chip)
  show ?case
  proof (cases "i < n_bytes")
    case False
    with "1.prems" show ?thesis
      by (simp add: draw_rows.simps)
  next
    case True
    let ?addr = "index_register chip + word_of_int i"
    let ?row = "draw_bits 7 (memory chip (unat ?addr)) x y chip"
    have unf: "draw_rows i n_bytes x y chip =
                 (if \<not> unat ?addr < 4096 then Inl IndexOutOfRange
                  else case ?row of
                         Inl e \<Rightarrow> Inl e
                       | Inr (xb, cb) \<Rightarrow>
                           if y + 1 > 30 then Inr cb
                           else draw_rows (i + 1) n_bytes xb (y + 1) cb)"
      by (subst draw_rows.simps) (simp add: True Let_def split: sum.split)
    from unf "1.prems"(1) have inside: "unat ?addr < 4096"
      by (simp split: if_splits)
    with unf "1.prems"(1) obtain xb cb where row: "?row = Inr (xb, cb)"
      and rest: "(if y + 1 > 30 then Inr cb else draw_rows (i + 1) n_bytes xb (y + 1) cb)
                   = Inr chip'"
      by (auto split: sum.splits)
    from row "1.prems"(2) have lit: "display cb r c = 1"
      by (rule draw_bits_keeps_lit)
    show ?thesis
    proof (cases "y + 1 > 30")
      case True
      with rest lit show ?thesis by simp
    next
      case False
      with rest have "draw_rows (i + 1) n_bytes xb (y + 1) cb = Inr chip'" by simp
      with \<open>i < n_bytes\<close> inside row False lit show ?thesis
        by (intro "1.IH" [of ?addr "(xb, cb)" xb cb "y + 1"]) simp_all
    qed
  qed
qed

lemma Cycle_draw_keeps_lit:
  assumes "unat (program_counter chip) < 4095"
    and "uint (memory chip (unat (program_counter chip))) div 16 = 13"
    and "Cycle chip = Inr (out, chip')"
    and "display chip r c = 1"
  shows "display chip' r c = 1"
  using assms
  by (auto simp: Cycle_decoded Let_def split: sum.splits dest: draw_rows_keeps_lit)

text \<open>No cycle writes the memory.\<close>

lemma Cycle_memory:
  assumes "Cycle chip = Inr (out, chip')"
  shows "memory chip' = memory chip"
proof (cases "unat (program_counter chip) < 4095")
  case False
  with assms show ?thesis by (simp add: Cycle_fetch_fault)
next
  case True
  with assms show ?thesis
    by (auto simp: Cycle_decoded Let_def split: if_splits sum.splits dest!: draw_rows_frame)
qed

lemma Cycles_memory:
  "Cycles n (out, chip) = Inr (out', chip') \<Longrightarrow> memory chip' = memory chip"
proof (induction n arbitrary: out chip)
  case 0
  then show ?case by simp
next
  case (Suc n)
  then show ?case
    by (auto split: sum.splits dest: Cycle_memory)
qed

text \<open>A load writes no address below the one it starts at.\<close>

lemma load_loop_below:
  "load_loop data a chip = Inr chip' \<Longrightarrow> i < unat a \<Longrightarrow> memory chip' i = memory chip i"
proof (induction data arbitrary: a chip)
  case Nil
  then show ?case by simp
next
  case (Cons b data)
  from Cons.prems have a: "unat a < 4096"
    by (simp split: if_splits)
  then have s: "unat (a + 1) = unat a + 1"
    by (simp add: unat_word_ariths)
  from Cons.prems a have
    "load_loop data (a + 1) (chip\<lparr>memory := (memory chip)(unat a := b)\<rparr>) = Inr chip'"
    by simp
  from Cons.IH [OF this] s Cons.prems(2) show ?case by simp
qed

lemma LoadROM_below_pc:
  "LoadROM chip file = Inr (out, ok, chip') \<Longrightarrow> i < unat (program_counter chip) \<Longrightarrow>
     memory chip' i = memory chip i"
  by (auto simp: LoadROM_def Let_def split: option.splits if_splits sum.splits
        dest: load_loop_below)

text \<open>
  What \<open>main\<close> does, one load on the new chip and then cycles, keeps the fontset in place.
\<close>

lemma main_run_keeps_fontset:
  assumes "main_run file n = Inr (out, chip)" and "i < 80"
  shows "memory chip i = fontset ! i"
proof -
  from assms(1) obtain out0 ok chip0 where
    l: "LoadROM NewChip file = Inr (out0, ok, chip0)" and c: "Cycles n (out0, chip0) = Inr (out, chip)"
    by (auto simp: main_run_def split: sum.splits)
  from c have "memory chip = memory chip0" by (rule Cycles_memory)
  moreover from l assms(2) have "memory chip0 i = memory NewChip i"
    by (intro LoadROM_below_pc) (simp_all add: NewChip_sel)
  ultimately show ?thesis
    using assms(2) by (simp add: NewChip_sel)
qed

section \<open>The claims\<close>

text \<open>
  C9. For every register index \<open>X\<close> and every byte \<open>NN\<close>: in a state whose program counter
  points at the instruction \<open>6XNN\<close> (high byte \<open>0x60 + X\<close>, low byte \<open>NN\<close>, both inside the
  memory), one cycle returns without panic and register \<open>X\<close> of the new state reads \<open>NN\<close>.
\<close>

theorem set_register_6XNN:
  assumes "unat (program_counter chip) < 4095"
    and "X < 16"
    and "uint (memory chip (unat (program_counter chip))) = 0x60 + int X"
    and "memory chip (unat (program_counter chip) + 1) = NN"
  shows "\<exists>chip'. Cycle chip = Inr ([], chip') \<and> registers chip' X = NN"
  using Cycle_set [OF assms] by simp

theorem set_register_6XNN_witness:
  "unat (program_counter (chip_with_instruction 0x6A 0x42)) < 4095 \<and> (10::nat) < 16
   \<and> uint (memory (chip_with_instruction 0x6A 0x42)
              (unat (program_counter (chip_with_instruction 0x6A 0x42)))) = 0x60 + int 10
   \<and> memory (chip_with_instruction 0x6A 0x42)
         (unat (program_counter (chip_with_instruction 0x6A 0x42)) + 1) = 0x42
   \<and> (\<exists>chip'. Cycle (chip_with_instruction 0x6A 0x42) = Inr ([], chip')
              \<and> registers chip' 10 = 0x42)"
proof -
  have h: "unat (program_counter (chip_with_instruction 0x6A 0x42)) < 4095" "(10::nat) < 16"
    "uint (memory (chip_with_instruction 0x6A 0x42)
              (unat (program_counter (chip_with_instruction 0x6A 0x42)))) = 0x60 + int 10"
    "memory (chip_with_instruction 0x6A 0x42)
         (unat (program_counter (chip_with_instruction 0x6A 0x42)) + 1) = 0x42"
    by (simp_all add: chip_with_instruction_sel)
  from set_register_6XNN [OF h] h show ?thesis by blast
qed

text \<open>
  C8. For every register index \<open>X\<close>, every byte \<open>NN\<close> and every old value of register \<open>X\<close>:
  in a state whose program counter points at the instruction \<open>7XNN\<close>, one cycle returns
  without panic, register \<open>X\<close> becomes (old value + \<open>NN\<close>) mod 256, the flag register VF keeps
  its value when \<open>X\<close> is not 15, and the program counter advances by 2.
\<close>

theorem add_immediate_7XNN:
  assumes "unat (program_counter chip) < 4095"
    and "X < 16"
    and "uint (memory chip (unat (program_counter chip))) = 0x70 + int X"
    and "memory chip (unat (program_counter chip) + 1) = NN"
  shows "\<exists>chip'. Cycle chip = Inr ([], chip')
           \<and> unat (registers chip' X) = (unat (registers chip X) + unat NN) mod 256
           \<and> (X \<noteq> 15 \<longrightarrow> registers chip' 15 = registers chip 15)
           \<and> unat (program_counter chip') = unat (program_counter chip) + 2"
proof -
  have "unat (registers chip X + NN) = (unat (registers chip X) + unat NN) mod 256"
    by (simp add: unat_word_ariths)
  moreover have "unat (program_counter chip + 2) = unat (program_counter chip) + 2"
    using assms(1) by (rule unat_pc_plus2)
  ultimately show ?thesis
    using Cycle_add [OF assms] by simp
qed

theorem add_immediate_7XNN_witness:
  "unat (program_counter add_wrap_chip) < 4095 \<and> (10::nat) < 16
   \<and> uint (memory add_wrap_chip (unat (program_counter add_wrap_chip))) = 0x70 + int 10
   \<and> memory add_wrap_chip (unat (program_counter add_wrap_chip) + 1) = 0x42
   \<and> (\<exists>chip'. Cycle add_wrap_chip = Inr ([], chip')
           \<and> unat (registers chip' 10) = 0x32
           \<and> registers chip' 15 = 7
           \<and> unat (program_counter chip') = 0x202)"
proof -
  have h: "unat (program_counter add_wrap_chip) < 4095" "(10::nat) < 16"
    "uint (memory add_wrap_chip (unat (program_counter add_wrap_chip))) = 0x70 + int 10"
    "memory add_wrap_chip (unat (program_counter add_wrap_chip) + 1) = 0x42"
    by (simp_all add: add_wrap_chip_def chip_with_instruction_sel)
  have v: "unat (registers add_wrap_chip 10) = 0xF0" "registers add_wrap_chip 15 = 7"
    "unat (program_counter add_wrap_chip) = 0x200"
    by (simp_all add: add_wrap_chip_def chip_with_instruction_sel)
  from add_immediate_7XNN [OF h] obtain chip' where
    "Cycle add_wrap_chip = Inr ([], chip')"
    "unat (registers chip' 10) = (unat (registers add_wrap_chip 10) + unat (0x42::byte)) mod 256"
    "registers chip' 15 = registers add_wrap_chip 15"
    "unat (program_counter chip') = unat (program_counter add_wrap_chip) + 2"
    by auto
  with v have "Cycle add_wrap_chip = Inr ([], chip') \<and> unat (registers chip' 10) = 0x32
           \<and> registers chip' 15 = 7 \<and> unat (program_counter chip') = 0x202"
    by simp
  with h show ?thesis by blast
qed

text \<open>
  C10. For every machine state whose fetch is inside the memory: when the top nibble of the
  fetched instruction is none of 0x0, 0x1, 0x6, 0x7, 0xA, 0xD, one call of \<open>Cycle\<close> prints the
  invalid-opcode line and returns the very same state, program counter included, so the
  next cycle fetches the same instruction again.
\<close>

theorem unimplemented_class_leaves_state:
  assumes "unat (program_counter chip) < 4095"
    and "uint (memory chip (unat (program_counter chip))) div 16 \<notin> {0, 1, 6, 7, 10, 13}"
  shows "Cycle chip = Inr ([invalid_opcode_message], chip)"
  using assms by (rule Cycle_invalid)

theorem unimplemented_class_leaves_state_witness:
  "unat (program_counter (chip_with_instruction 0x80 0x14)) < 4095
   \<and> uint (memory (chip_with_instruction 0x80 0x14)
          (unat (program_counter (chip_with_instruction 0x80 0x14)))) div 16
         \<notin> {0, 1, 6, 7, 10, 13}
   \<and> Cycle (chip_with_instruction 0x80 0x14)
         = Inr ([invalid_opcode_message], chip_with_instruction 0x80 0x14)"
  using unimplemented_class_leaves_state [OF class_8_chip_facts] class_8_chip_facts
  by blast

text \<open>
  C2 (as the code has it). An instruction of an unrecognized class raises no fault and does
  not halt execution: every one of the next \<open>n\<close> cycles prints the fixed line
  \<open>Invalid Opcode\<close>, which names neither the instruction nor the program counter, and
  returns normally with the state unchanged.
\<close>

theorem unrecognized_class_never_halts:
  assumes "unat (program_counter chip) < 4095"
    and "uint (memory chip (unat (program_counter chip))) div 16 \<notin> {0, 1, 6, 7, 10, 13}"
  shows "Cycles n (out, chip) = Inr (out @ replicate n invalid_opcode_message, chip)"
proof (induction n arbitrary: out)
  case 0
  show ?case by simp
next
  case (Suc n)
  have "Cycles (Suc n) (out, chip) = Cycles n (out @ [invalid_opcode_message], chip)"
    by (simp add: Cycle_invalid [OF assms])
  also have "\<dots> = Inr ((out @ [invalid_opcode_message]) @ replicate n invalid_opcode_message, chip)"
    by (rule Suc.IH)
  finally show ?case
    by (simp add: replicate_append_same)
qed

theorem unrecognized_class_never_halts_witness:
  "unat (program_counter (chip_with_instruction 0x80 0x14)) < 4095
   \<and> uint (memory (chip_with_instruction 0x80 0x14)
          (unat (program_counter (chip_with_instruction 0x80 0x14)))) div 16
         \<notin> {0, 1, 6, 7, 10, 13}
   \<and> Cycles 3 ([], chip_with_instruction 0x80 0x14)
         = Inr ([invalid_opcode_message, invalid_opcode_message, invalid_opcode_message],
                chip_with_instruction 0x80 0x14)"
proof -
  have "replicate 3 invalid_opcode_message
          = [invalid_opcode_message, invalid_opcode_message, invalid_opcode_message]"
    by (simp add: numeral_3_eq_3)
  with unrecognized_class_never_halts [OF class_8_chip_facts, of 3 "[]"] class_8_chip_facts
  show ?thesis by simp
qed

text \<open>
  After loading the class-8 instruction \<open>8014\<close>, two cycles return normally: nothing but the
  fixed line was printed, twice, and the program counter is still 0x200 = 512.
\<close>

theorem unrecognized_class_counterexample:
  "map_sum id printed_and_PC (main_run (Some class_8_rom) 2)
     = Inr ([invalid_opcode_message, invalid_opcode_message], 512)"
  by (simp add: main_run_def class_8_rom_def LoadROM_two_bytes Cycles_step Cycle_decoded
        chip_with_instruction_sel printed_and_PC_def)

text \<open>
  C3 (as the code has it). The instruction \<open>00EE\<close> neither pops the stack nor faults: like
  every instruction of class 0 it clears the display and advances the program counter by 2;
  the stack and every other field keep their values, whatever the stack holds.
\<close>

theorem return_opcode_clears_display:
  assumes "unat (program_counter chip) < 4095"
    and "memory chip (unat (program_counter chip)) = 0x00"
    and "memory chip (unat (program_counter chip) + 1) = 0xEE"
  shows "Cycle chip = Inr ([], chip\<lparr>display := blank_display,
                                    program_counter := program_counter chip + 2\<rparr>)"
  using assms by (simp add: Cycle_class_0)

theorem return_opcode_clears_display_witness:
  "unat (program_counter (chip_with_instruction 0x00 0xEE)) < 4095
   \<and> memory (chip_with_instruction 0x00 0xEE)
         (unat (program_counter (chip_with_instruction 0x00 0xEE))) = 0x00
   \<and> memory (chip_with_instruction 0x00 0xEE)
         (unat (program_counter (chip_with_instruction 0x00 0xEE)) + 1) = 0xEE
   \<and> Cycle (chip_with_instruction 0x00 0xEE)
         = Inr ([], (chip_with_instruction 0x00 0xEE)
                      \<lparr>display := blank_display,
                       program_counter := program_counter (chip_with_instruction 0x00 0xEE) + 2\<rparr>)"
  using return_opcode_clears_display [OF return_chip_facts] return_chip_facts
  by blast

text \<open>
  On the new chip, whose stack was never pushed to, \<open>00EE\<close> returns normally with the
  program counter at 0x202 = 514: no stack underflow is reported.
\<close>

theorem return_on_empty_stack_counterexample:
  "map_sum id printed_and_PC (main_run (Some return_rom) 1) = Inr ([], 514)"
  by (simp add: main_run_def return_rom_def LoadROM_two_bytes Cycles_step Cycle_decoded
        chip_with_instruction_sel printed_and_PC_def)

text \<open>
  C4 (as the code has it). After four cycles on the scenario program, V0 = 5, VF = 0 and the
  program counter is 0x206, six past its start: the fourth instruction \<open>8014\<close> is of a class
  \<open>Cycle\<close> does not implement, so it only prints the invalid-opcode line.
\<close>

theorem scenario_four_cycles:
  "map_sum id V0_VF_PC (main_run (Some scenario_rom) 4) = Inr (5, 0, 0x206)
   \<and> map_sum id fst (main_run (Some scenario_rom) 4) = Inr [invalid_opcode_message]"
  by (simp add: main_run_def LoadROM_def scenario_rom_def Cycles_step Cycle_decoded
        NewChip_sel V0_VF_PC_def)

theorem scenario_four_cycles_counterexample:
  "map_sum id V0_VF_PC (main_run (Some scenario_rom) 4) \<noteq> Inr (15, 0, 0x208)"
  by (simp add: main_run_def LoadROM_def scenario_rom_def Cycles_step Cycle_decoded
        NewChip_sel V0_VF_PC_def)

text \<open>
  C5 (as the code has it). Every state reachable from the new chip by ROM loads and by
  cycles that did not panic has a program counter of at most 4096. The bound 4096 itself is
  reached: \<open>Cycle\<close> adds 2 to a program counter of 4094 without any check, and only the fetch
  of the following cycle panics.
\<close>

theorem reachable_pc_bound: "reachable chip \<Longrightarrow> unat (program_counter chip) \<le> 4096"
proof (induction rule: reachable.induct)
  case init
  show ?case by (simp add: NewChip_sel)
next
  case (load chip "file" out ok chip')
  then show ?case by (simp add: LoadROM_pc)
next
  case (step chip out chip')
  from step.hyps(2) show ?case by (rule Cycle_pc_bound)
qed

theorem reachable_pc_bound_witness:
  "reachable end_of_memory_chip \<and> unat (program_counter end_of_memory_chip) \<le> 4096
   \<and> unat (program_counter end_of_memory_chip) = 4096"
  using reachable_pc_bound [OF reachable_end_of_memory_chip] reachable_end_of_memory_chip
  by (simp add: end_of_memory_chip_def)

text \<open>
  Two cycles after loading the jump to 0xFFE nothing has panicked and the program counter
  is 4096.
\<close>

theorem pc_past_end_counterexample:
  "map_sum id printed_and_PC (main_run (Some jump_to_end_rom) 2) = Inr ([], 4096)"
  by (simp add: main_run_def jump_to_end_rom_def LoadROM_two_bytes Cycles_step
        Cycle_jump_to_end Cycle_past_end printed_and_PC_def end_of_memory_chip_def)

text \<open>
  C1 (what the code does at the failing input). With I at a sprite byte \<open>0xFF\<close> and V0 = 0,
  the first \<open>D001\<close> on the blank display turns columns 0 to 7 of row 0 on with VF = 0; the
  second \<open>D001\<close> sets VF = 1 but leaves all eight pixels on, where drawing by XOR would
  have turned them off again.
\<close>

theorem double_draw_leaves_pixels_on:
  "map_sum id row0_and_VF (main_run (Some double_draw_rom) 2)
     = Inr ([1, 1, 1, 1, 1, 1, 1, 1, 0], 0)
   \<and> map_sum id row0_and_VF (main_run (Some double_draw_rom) 3)
     = Inr ([1, 1, 1, 1, 1, 1, 1, 1, 0], 1)"
  by (simp add: main_run_def LoadROM_double_draw Cycles_step Cycle_decoded NewChip_sel
        row0_and_VF_def draw_rows.simps draw_bits.simps blank_display_def)

text \<open>
  C6 (what the code does at the failing input). A ROM of 3584 bytes, which with
  \<open>0x200 + 3584 = 4096\<close> fills the memory exactly, is refused by \<open>LoadROM\<close> on the new chip:
  the size test is \<open>>=\<close> where only \<open>>\<close> means that the file does not fit.
\<close>

theorem exact_fit_rom_is_refused:
  "uint (program_counter NewChip) + int (length full_rom) = 4096
   \<and> LoadROM NewChip (Some full_rom) = Inr ([file_too_big_message], False, NewChip)"
  by (simp add: LoadROM_def full_rom_def NewChip_sel)

text \<open>
  C7 (what the code does at the failing input). \<open>LoadROM\<close> starts writing at the program
  counter, not at 0x200: after one cycle of a ROM that jumps to address 0, a second load of
  the single byte \<open>0xAB\<close> succeeds and overwrites the first fontset byte \<open>0xF0\<close>.
\<close>

theorem reload_overwrites_fontset:
  "map_sum id ok_and_byte0 reload_after_jump = Inr (True, 0xAB)
   \<and> memory NewChip 0 = fontset ! 0 \<and> fontset ! 0 = 0xF0"
  by (simp add: reload_after_jump_def main_run_def jump_to_zero_rom_def LoadROM_two_bytes
        Cycles_step Cycle_decoded chip_with_instruction_sel LoadROM_def ok_and_byte0_def
        NewChip_sel fontset_def)

end
